theory Spec2Isabelle
  imports Main "HOL-Library.Sublist" "HOL-Library.Word"
begin

section \<open>Values: what \<open>json.load\<close> and \<open>json.loads\<close> produce\<close>

text \<open>
  The trait library and the oracle's answer are Python objects built by the \<open>json\<close>
  module: \<open>None\<close>, \<open>bool\<close>, \<open>int\<close>, \<open>float\<close>, \<open>str\<close>, \<open>list\<close> and \<open>dict\<close> with string
  keys. A \<open>float\<close> is kept as the 64 bits of its IEEE 754 double. A \<open>dict\<close> keeps its
  insertion order, so it is an association list; Python never holds a key twice, and
  the theorems that depend on it ask for distinct keys.
\<close>

datatype json =
    JNull
  | JBool bool
  | JInt int
  | JFloat "64 word"
  | JString string
  | JArray "json list"
  | JObject "(string \<times> json) list"

type_synonym pydict = "(string \<times> json) list"

text \<open>
  The exceptions. The first six are the built-in classes the source can raise in the
  code modelled here: \<open>json.loads\<close> raises \<open>json.JSONDecodeError\<close> (the \<open>json\<close>
  module's subclass of \<open>ValueError\<close>) on a text that is no JSON, a plain \<open>ValueError\<close>
  on an integer literal above the interpreter's digit limit and \<open>RecursionError\<close> on
  brackets nested too deep. The source defines no exception class of its own; the last
  four are the names of the specification's taxonomy, present so that statements about
  them can be written down.
\<close>

datatype error =
    KeyError
  | TypeError
  | AttributeError
  | JSONDecodeError
  | ValueError
  | RecursionError
  | ConfigurationError
  | OracleTransportError
  | MalformedResponseError
  | StorageError

definition keys :: "pydict \<Rightarrow> string list" where
  "keys d = map fst d"

text \<open>\<open>d.get(k)\<close>: the value under \<open>k\<close>, if any.\<close>

definition dict_get :: "pydict \<Rightarrow> string \<Rightarrow> json option" where
  "dict_get d k = map_of d k"

text \<open>\<open>d[k] = v\<close> on a dict: an existing key keeps its place, a new key goes last.\<close>

fun dict_set :: "pydict \<Rightarrow> string \<Rightarrow> json \<Rightarrow> pydict" where
  "dict_set [] k v = [(k, v)]"
| "dict_set (p # ps) k v = (if fst p = k then (k, v) # ps else p # dict_set ps k v)"

text \<open>
  \<open>k in c\<close> for a string \<open>k\<close>: key membership in a dict, element equality in a list (a
  string equals only an equal string), substring test in a string; any other operand
  raises \<open>TypeError\<close> (argument is not iterable).
\<close>

fun py_contains :: "json \<Rightarrow> string \<Rightarrow> error + bool" where
  "py_contains (JObject d) k = Inr (k \<in> set (keys d))"
| "py_contains (JArray xs) k = Inr (JString k \<in> set xs)"
| "py_contains (JString s) k = Inr (sublist k s)"
| "py_contains JNull k = Inl TypeError"
| "py_contains (JBool b) k = Inl TypeError"
| "py_contains (JInt i) k = Inl TypeError"
| "py_contains (JFloat w) k = Inl TypeError"

text \<open>
  \<open>c[k] = v\<close> for a string \<open>k\<close>: only a dict accepts it; a list wants an integer index
  and the other types support no item assignment (\<open>TypeError\<close>).
\<close>

fun py_setitem :: "json \<Rightarrow> string \<Rightarrow> json \<Rightarrow> error + json" where
  "py_setitem (JObject d) k v = Inr (JObject (dict_set d k v))"
| "py_setitem c k v = Inl TypeError"


section \<open>The Trait Store (\<open>services/trait_manager.py\<close>)\<close>

text \<open>
  A \<open>TraitManager\<close> holds the library in memory (\<open>self._library\<close>, annotated
  \<open>dict[str, Any]\<close>); the file \<open>trait_library.json\<close> is the durable storage. The
  file's content is kept as the document it serialises (\<open>None\<close> when the file does not
  exist), and \<open>writes\<close> counts how often the file has been written. Writing the file is
  taken to succeed: an I/O failure of the operating system is outside this model.
\<close>

record trait_manager =
  library :: pydict
  trait_file :: "pydict option"
  writes :: nat

definition save :: "trait_manager \<Rightarrow> trait_manager" where
  "save tm = tm\<lparr>trait_file := Some (library tm), writes := Suc (writes tm)\<rparr>"

definition skeleton :: pydict where
  "skeleton =
     [(''meta'', JObject [(''version'', JString ''2.1''),
                          (''description'', JString ''Poly-Sin Weighting Library'')]),
      (''traits'', JObject [])]"

definition load :: "trait_manager \<Rightarrow> trait_manager" where
  "load tm =
     (case trait_file tm of
        Some doc \<Rightarrow> tm\<lparr>library := doc\<rparr>
      | None \<Rightarrow> save (tm\<lparr>library := skeleton\<rparr>))"

definition get_library :: "trait_manager \<Rightarrow> pydict" where
  "get_library tm = library tm"

definition get_traits :: "trait_manager \<Rightarrow> json" where
  "get_traits tm =
     (case dict_get (library tm) ''traits'' of None \<Rightarrow> JObject [] | Some t \<Rightarrow> t)"

text \<open>
  The validation of \<open>assimilate\<close>:
  \<open>"definition" in trait_data and "sin_weights" in trait_data\<close>; \<open>and\<close> does not
  evaluate its second operand when the first is false.
\<close>

definition valid_structure :: "json \<Rightarrow> error + bool" where
  "valid_structure trait_data =
     (case py_contains trait_data ''definition'' of
        Inl e \<Rightarrow> Inl e
      | Inr b \<Rightarrow> if b then py_contains trait_data ''sin_weights'' else Inr False)"

text \<open>
  One round of the loop of \<open>assimilate\<close>, on the library and the list \<open>added\<close>.
  \<open>self._library["traits"]\<close> is read in every round and raises \<open>KeyError\<close> when the
  field is missing. An exception leaves both as they were before the round.
\<close>

definition assimilate_body ::
  "string \<times> json \<Rightarrow> pydict \<times> string list \<Rightarrow> error + pydict \<times> string list" where
  "assimilate_body c st =
     (case c of (trait_key, trait_data) \<Rightarrow>
      case st of (lib, added) \<Rightarrow>
        (case dict_get lib ''traits'' of
           None \<Rightarrow> Inl KeyError
         | Some traits \<Rightarrow>
             (case py_contains traits trait_key of
                Inl e \<Rightarrow> Inl e
              | Inr known \<Rightarrow>
                  if known then Inr (lib, added)
                  else
                    (case valid_structure trait_data of
                       Inl e \<Rightarrow> Inl e
                     | Inr ok \<Rightarrow>
                         if ok then
                           (case py_setitem traits trait_key trait_data of
                              Inl e \<Rightarrow> Inl e
                            | Inr traits' \<Rightarrow>
                                Inr (dict_set lib ''traits'' traits', added @ [trait_key]))
                         else Inr (lib, added)))))"

text \<open>
  The loop over \<open>new_traits.items()\<close>. An exception ends it; the library keeps what the
  earlier rounds stored.
\<close>

fun assimilate_loop ::
  "(string \<times> json) list \<Rightarrow> pydict \<Rightarrow> string list \<Rightarrow> (error + string list) \<times> pydict" where
  "assimilate_loop [] lib added = (Inr added, lib)"
| "assimilate_loop (c # rest) lib added =
     (case assimilate_body c (lib, added) of
        Inl e \<Rightarrow> (Inl e, lib)
      | Inr (lib', added') \<Rightarrow> assimilate_loop rest lib' added')"

text \<open>
  \<open>assimilate\<close>: the result is the exception or the returned list, together with the
  manager as the call leaves it.
\<close>

definition assimilate ::
  "trait_manager \<Rightarrow> (string \<times> json) list \<Rightarrow> (error + string list) \<times> trait_manager" where
  "assimilate tm new_traits =
     (case assimilate_loop new_traits (library tm) [] of
        (Inl e, lib) \<Rightarrow> (Inl e, tm\<lparr>library := lib\<rparr>)
      | (Inr added, lib) \<Rightarrow>
          if added \<noteq> [] then (Inr added, save (tm\<lparr>library := lib\<rparr>))
          else (Inr added, tm\<lparr>library := lib\<rparr>))"


text \<open>
  Views used in the statements: the traits mapping of a document (empty when the field
  is missing or holds no dict), of the manager's library, and the keys that are in the
  traits mapping of \<open>tm'\<close> but not in that of \<open>tm\<close>, in library order.
\<close>

definition traits_of_doc :: "pydict \<Rightarrow> pydict" where
  "traits_of_doc doc = (case dict_get doc ''traits'' of Some (JObject t) \<Rightarrow> t | _ \<Rightarrow> [])"

definition traits_dict :: "trait_manager \<Rightarrow> pydict" where
  "traits_dict tm = traits_of_doc (library tm)"

definition new_keys :: "trait_manager \<Rightarrow> trait_manager \<Rightarrow> string list" where
  "new_keys tm tm' = filter (\<lambda>k. k \<notin> set (keys (traits_dict tm))) (keys (traits_dict tm'))"

text \<open>A value that is a dict, as the data model has every trait.\<close>

definition is_mapping :: "json \<Rightarrow> bool" where
  "is_mapping v = (case v of JObject d \<Rightarrow> True | _ \<Rightarrow> False)"


subsection \<open>The knowledge-base summary\<close>

text \<open>\<open>c.get(k, default)\<close> and \<open>c.items()\<close>: methods of a dict only (\<open>AttributeError\<close>).\<close>

fun py_get :: "json \<Rightarrow> string \<Rightarrow> json \<Rightarrow> error + json" where
  "py_get (JObject d) k dflt = Inr (case dict_get d k of None \<Rightarrow> dflt | Some v \<Rightarrow> v)"
| "py_get c k dflt = Inl AttributeError"

fun py_items :: "json \<Rightarrow> error + pydict" where
  "py_items (JObject d) = Inr d"
| "py_items c = Inl AttributeError"

text \<open>Truth value of an object, as \<open>not traits\<close> tests it.\<close>

fun py_truthy :: "json \<Rightarrow> bool" where
  "py_truthy JNull = False"
| "py_truthy (JBool b) = b"
| "py_truthy (JInt i) = (i \<noteq> 0)"
| "py_truthy (JFloat w) = (w \<noteq> 0 \<and> w \<noteq> 0x8000000000000000)"
| "py_truthy (JString s) = (s \<noteq> [])"
| "py_truthy (JArray xs) = (xs \<noteq> [])"
| "py_truthy (JObject d) = (d \<noteq> [])"

text \<open>
  A double is greater than zero when its sign bit is clear and it is neither zero nor
  a NaN: as an unsigned number its bits lie in \<open>(0, 0x7FF0000000000000]\<close>, the upper
  end being \<open>+inf\<close>.
\<close>

definition float_gt_zero :: "64 word \<Rightarrow> bool" where
  "float_gt_zero w = (0 < w \<and> w \<le> 0x7FF0000000000000)"

text \<open>\<open>w > 0\<close>: numbers compare (\<open>True\<close> is 1), everything else raises \<open>TypeError\<close>.\<close>

fun py_gt_zero :: "json \<Rightarrow> error + bool" where
  "py_gt_zero (JInt i) = Inr (0 < i)"
| "py_gt_zero (JBool b) = Inr b"
| "py_gt_zero (JFloat w) = Inr (float_gt_zero w)"
| "py_gt_zero JNull = Inl TypeError"
| "py_gt_zero (JString s) = Inl TypeError"
| "py_gt_zero (JArray xs) = Inl TypeError"
| "py_gt_zero (JObject d) = Inl TypeError"

fun digits :: "nat \<Rightarrow> string" where
  "digits n =
     (if n < 10 then [''0123456789'' ! n]
      else digits (n div 10) @ [''0123456789'' ! (n mod 10)])"

definition show_int :: "int \<Rightarrow> string" where
  "show_int i = (if i < 0 then ''-'' @ digits (nat (- i)) else digits (nat i))"

text \<open>
  \<open>f"{v}"\<close>: a string stands for itself, \<open>None\<close>, the booleans and the integers have
  their fixed spelling; for a float, a list and a dict Python prints its \<open>repr\<close>, which
  is a function of the interpreter and is a parameter here.
\<close>

fun py_format :: "(json \<Rightarrow> string) \<Rightarrow> json \<Rightarrow> string" where
  "py_format repr (JString s) = s"
| "py_format repr JNull = ''None''"
| "py_format repr (JBool b) = (if b then ''True'' else ''False'')"
| "py_format repr (JInt i) = show_int i"
| "py_format repr (JFloat w) = repr (JFloat w)"
| "py_format repr (JArray xs) = repr (JArray xs)"
| "py_format repr (JObject d) = repr (JObject d)"

text \<open>\<open>sep.join(xs)\<close>.\<close>

fun join :: "string \<Rightarrow> string list \<Rightarrow> string" where
  "join sep [] = []"
| "join sep [x] = x"
| "join sep (x # y # ys) = x @ sep @ join sep (y # ys)"

definition newline :: char where
  "newline = CHR 0x0A"

text \<open>
  The generator \<open>f"{s}: {w}" for s, w in weights.items() if w > 0\<close>, as \<open>join\<close>
  consumes it: the first comparison that raises ends it.
\<close>

fun weight_items :: "(json \<Rightarrow> string) \<Rightarrow> pydict \<Rightarrow> error + string list" where
  "weight_items repr [] = Inr []"
| "weight_items repr ((s, w) # rest) =
     (case py_gt_zero w of
        Inl e \<Rightarrow> Inl e
      | Inr pos \<Rightarrow>
          (case weight_items repr rest of
             Inl e \<Rightarrow> Inl e
           | Inr items \<Rightarrow> Inr (if pos then (s @ '': '' @ py_format repr w) # items else items)))"

text \<open>The body of the loop of \<open>get_knowledge_base_string\<close>: the line of one trait.\<close>

definition summary_line :: "(json \<Rightarrow> string) \<Rightarrow> string \<Rightarrow> json \<Rightarrow> error + string" where
  "summary_line repr key data =
     (case py_get data ''sin_weights'' (JObject []) of
        Inl e \<Rightarrow> Inl e
      | Inr weights \<Rightarrow>
     (case py_items weights of
        Inl e \<Rightarrow> Inl e
      | Inr ws \<Rightarrow>
     (case weight_items repr ws of
        Inl e \<Rightarrow> Inl e
      | Inr items \<Rightarrow>
     (case py_get data ''definition'' (JString ''No definition'') of
        Inl e \<Rightarrow> Inl e
      | Inr defn \<Rightarrow>
     (case py_get data ''complexity_score'' (JInt 0) of
        Inl e \<Rightarrow> Inl e
      | Inr score \<Rightarrow>
          Inr (''- '' @ key @ '': '' @ py_format repr defn @ '' [Weights: ''
               @ join '', '' items @ ''] (complexity: '' @ py_format repr score @ '')''))))))"

fun summary_lines :: "(json \<Rightarrow> string) \<Rightarrow> pydict \<Rightarrow> error + string list" where
  "summary_lines repr [] = Inr []"
| "summary_lines repr ((key, data) # rest) =
     (case summary_line repr key data of
        Inl e \<Rightarrow> Inl e
      | Inr l \<Rightarrow>
          (case summary_lines repr rest of
             Inl e \<Rightarrow> Inl e
           | Inr ls \<Rightarrow> Inr (l # ls)))"

definition get_knowledge_base_string ::
  "(json \<Rightarrow> string) \<Rightarrow> trait_manager \<Rightarrow> error + string" where
  "get_knowledge_base_string repr tm =
     (let traits = get_traits tm in
      if \<not> py_truthy traits then Inr ''(No traits learned yet)''
      else
        (case py_items traits of
           Inl e \<Rightarrow> Inl e
         | Inr items \<Rightarrow>
             (case summary_lines repr items of
                Inl e \<Rightarrow> Inl e
              | Inr ls \<Rightarrow> Inr (join [newline] ls))))"

text \<open>
  The summary as the specification words it, for comparison with the code: one entry
  per trait; the list of \<open>sin: weight\<close> pairs holds the weights greater than zero.
\<close>

definition positive_weight :: "json \<Rightarrow> bool" where
  "positive_weight w = (py_gt_zero w = Inr True)"

definition spec_weights :: "(json \<Rightarrow> string) \<Rightarrow> pydict \<Rightarrow> string" where
  "spec_weights repr ws =
     join '', '' (map (\<lambda>(s, w). s @ '': '' @ py_format repr w) (filter (\<lambda>(s, w). positive_weight w) ws))"

text \<open>
  A trait as the data model has it, as far as the summary reads it: a dict whose
  \<open>sin_weights\<close>, when present, is a dict of numbers. Its weights (none when the field
  is absent) and a field of it with the default the summary prints.
\<close>

definition is_number :: "json \<Rightarrow> bool" where
  "is_number w = (case w of JInt i \<Rightarrow> True | JFloat x \<Rightarrow> True | JBool b \<Rightarrow> True | _ \<Rightarrow> False)"

definition wf_trait :: "json \<Rightarrow> bool" where
  "wf_trait data =
     (case data of
        JObject fs \<Rightarrow>
          (case dict_get fs ''sin_weights'' of
             None \<Rightarrow> True
           | Some (JObject ws) \<Rightarrow> list_all (is_number \<circ> snd) ws
           | Some _ \<Rightarrow> False)
      | _ \<Rightarrow> False)"

definition trait_weights :: "json \<Rightarrow> pydict" where
  "trait_weights data =
     (case data of
        JObject fs \<Rightarrow> (case dict_get fs ''sin_weights'' of Some (JObject ws) \<Rightarrow> ws | _ \<Rightarrow> [])
      | _ \<Rightarrow> [])"

definition trait_field :: "json \<Rightarrow> string \<Rightarrow> json \<Rightarrow> json" where
  "trait_field data k dflt =
     (case data of
        JObject fs \<Rightarrow> (case dict_get fs k of None \<Rightarrow> dflt | Some v \<Rightarrow> v)
      | _ \<Rightarrow> dflt)"

definition definition_text :: "(json \<Rightarrow> string) \<Rightarrow> json \<Rightarrow> string" where
  "definition_text repr data =
     py_format repr (trait_field data ''definition'' (JString ''No definition''))"

definition complexity_text :: "(json \<Rightarrow> string) \<Rightarrow> json \<Rightarrow> string" where
  "complexity_text repr data = py_format repr (trait_field data ''complexity_score'' (JInt 0))"

definition spec_entry :: "(json \<Rightarrow> string) \<Rightarrow> string \<times> json \<Rightarrow> string" where
  "spec_entry repr kd =
     ''- '' @ fst kd @ '': '' @ definition_text repr (snd kd)
     @ '' [Weights: '' @ spec_weights repr (trait_weights (snd kd)) @ ''] (complexity: ''
     @ complexity_text repr (snd kd) @ '')''"


section \<open>The Analysis Orchestrator (\<open>services/felix_engine.py\<close>)\<close>

text \<open>
  Whitespace as \<open>str.strip()\<close> and the pattern \<open>\s\<close> see it (both test
  \<open>str.isspace\<close>), on the code points below 256.
\<close>

definition py_isspace :: "char \<Rightarrow> bool" where
  "py_isspace c =
     (let n = (of_char c :: nat) in (9 \<le> n \<and> n \<le> 13) \<or> (28 \<le> n \<and> n \<le> 32) \<or> n = 133 \<or> n = 160)"

fun rstrip :: "string \<Rightarrow> string" where
  "rstrip [] = []"
| "rstrip (c # cs) = (let r = rstrip cs in if r = [] \<and> py_isspace c then [] else c # r)"

definition strip :: "string \<Rightarrow> string" where
  "strip s = rstrip (dropWhile py_isspace s)"

text \<open>The fence token: three backquotes.\<close>

definition fence :: string where
  "fence = [CHR 0x60, CHR 0x60, CHR 0x60]"

text \<open>
  \<open>re.sub(r"^```(?:json)?\s*", "", s)\<close>: at the start of the text only, the fence, the
  letters \<open>json\<close> when they follow it, and the whitespace after them.
\<close>

definition sub_leading_fence :: "string \<Rightarrow> string" where
  "sub_leading_fence s =
     (if prefix fence s then
        (let r = drop 3 s;
             r' = (if prefix ''json'' r then drop 4 r else r)
         in dropWhile py_isspace r')
      else s)"

text \<open>
  \<open>re.sub(r"\s*```$", "", s)\<close>: \<open>$\<close> matches at the end of the text and before a
  newline that ends it; the leftmost match takes all the whitespace before the fence.
\<close>

definition sub_trailing_fence :: "string \<Rightarrow> string" where
  "sub_trailing_fence s =
     (if suffix fence s then rstrip (take (length s - 3) s)
      else if suffix (fence @ [newline]) s then rstrip (take (length s - 4) s) @ [newline]
      else s)"

text \<open>Lines 92 to 97 of \<open>analyze\<close>: from the oracle's text to the text that is parsed.\<close>

definition normalize :: "string \<Rightarrow> string" where
  "normalize text =
     (let raw_text = strip text in
      if prefix fence raw_text then sub_trailing_fence (sub_leading_fence raw_text)
      else raw_text)"

text \<open>
  Lines 92 to 106 of \<open>analyze\<close>, from the oracle's response text on. \<open>json.loads\<close> is
  a parameter: it gives the parsed value or the exception it raises, which \<open>analyze\<close>
  does not catch. \<open>new_defs.items()\<close>, the first thing \<open>assimilate\<close> evaluates, is done
  here.
\<close>

definition analyze_response ::
  "(string \<Rightarrow> error + json) \<Rightarrow> trait_manager \<Rightarrow> string \<Rightarrow> (error + json) \<times> trait_manager" where
  "analyze_response json_loads tm text =
     (case json_loads (normalize text) of
        Inl e \<Rightarrow> (Inl e, tm)
      | Inr result \<Rightarrow>
          (case py_get result ''new_trait_definitions'' (JObject []) of
             Inl e \<Rightarrow> (Inl e, tm)
           | Inr new_defs \<Rightarrow>
               (case py_items new_defs of
                  Inl e \<Rightarrow> (Inl e, tm)
                | Inr new_traits \<Rightarrow>
                    (case assimilate tm new_traits of
                       (Inl e, tm') \<Rightarrow> (Inl e, tm')
                     | (Inr newly_added, tm') \<Rightarrow>
                         (case py_setitem result ''_newly_added_traits''
                                 (JArray (map JString newly_added)) of
                            Inl e \<Rightarrow> (Inl e, tm')
                          | Inr result' \<Rightarrow> (Inr result', tm'))))))"

text \<open>
  \<open>analyze\<close>: the knowledge-base summary is built first, for the prompt; the oracle's
  call is outside the model and \<open>text\<close> is what it answered.
\<close>

definition analyze ::
  "(json \<Rightarrow> string) \<Rightarrow> (string \<Rightarrow> error + json) \<Rightarrow> trait_manager \<Rightarrow> string
     \<Rightarrow> (error + json) \<times> trait_manager" where
  "analyze repr json_loads tm text =
     (case get_knowledge_base_string repr tm of
        Inl e \<Rightarrow> (Inl e, tm)
      | Inr knowledge_base \<Rightarrow> analyze_response json_loads tm text)"


text \<open>
  Views used in the statements about the fences. A string of whitespace; the characters
  a JSON value can begin with (an object, an array, a string, a number, \<open>true\<close>,
  \<open>false\<close>, \<open>null\<close>), and a text whose first character after the whitespace is one of
  them, as every JSON document is.
\<close>

definition whitespace :: "string \<Rightarrow> bool" where
  "whitespace w = list_all py_isspace w"

definition json_first_chars :: string where
  "json_first_chars = ''{[-0123456789tfn'' @ [CHR 0x22]"

definition begins_json :: "string \<Rightarrow> bool" where
  "begins_json d =
     (case dropWhile py_isspace d of [] \<Rightarrow> False | c # rest \<Rightarrow> c \<in> set json_first_chars)"


section \<open>The boundary (\<open>main.py\<close>)\<close>

text \<open>
  The route \<open>/api/analyze\<close>, once the engine exists: \<open>except Exception as e\<close> turns
  every exception of \<open>analyze\<close> into
  \<open>HTTPException(status_code=500, detail=f"Analysis failed: {e}")\<close>. The text of an
  exception, \<open>str(e)\<close>, is a parameter.
\<close>

datatype http_exception = HTTPException nat string

definition api_analyze ::
  "(error \<Rightarrow> string) \<Rightarrow> (json \<Rightarrow> string) \<Rightarrow> (string \<Rightarrow> error + json) \<Rightarrow> trait_manager \<Rightarrow> string
     \<Rightarrow> (http_exception + json) \<times> trait_manager" where
  "api_analyze exn_str repr json_loads tm text =
     (case analyze repr json_loads tm text of
        (Inl e, tm') \<Rightarrow> (Inl (HTTPException 500 (''Analysis failed: '' @ exn_str e)), tm')
      | (Inr result, tm') \<Rightarrow> (Inr result, tm'))"



section \<open>Concrete values for the examples\<close>

text \<open>The doubles \<open>0.0\<close> and \<open>0.6\<close> (the double nearest to 6/10) and how Python prints them.\<close>

definition float_0_0 :: "64 word" where
  "float_0_0 = 0"

definition float_0_6 :: "64 word" where
  "float_0_6 = 0x3FE3333333333333"

definition repr_sample :: "json \<Rightarrow> string" where
  "repr_sample v =
     (if v = JFloat float_0_6 then ''0.6'' else if v = JFloat float_0_0 then ''0.0'' else ''?'')"

text \<open>
  \<open>json.loads\<close> on the texts of the examples: \<open>{}\<close> is the empty dict, and the other
  texts the examples use (\<open>not json\<close>, a document behind the letters \<open>js\<close>) are no
  JSON and raise \<open>JSONDecodeError\<close>. \<open>str(e)\<close> of that exception.
\<close>

definition sample_documents :: "(string \<times> json) list" where
  "sample_documents = [(''{}'', JObject [])]"

definition json_loads_sample :: "string \<Rightarrow> error + json" where
  "json_loads_sample s =
     (case map_of sample_documents s of
        Some v \<Rightarrow> Inr v
      | None \<Rightarrow> Inl JSONDecodeError)"

definition exn_str_sample :: "error \<Rightarrow> string" where
  "exn_str_sample e =
     (if e = JSONDecodeError then ''Expecting value: line 1 column 1 (char 0)'' else ''error'')"

definition trait_a :: json where
  "trait_a =
     JObject [(''definition'', JString ''craves control''),
              (''sin_weights'', JObject [(''pride'', JFloat float_0_0), (''wrath'', JFloat float_0_6)]),
              (''complexity_score'', JInt 1)]"

text \<open>A trait with a field the data model does not know and no \<open>complexity_score\<close>.\<close>

definition trait_b :: json where
  "trait_b =
     JObject [(''definition'', JString ''hoards''),
              (''sin_weights'', JObject [(''greed'', JInt 1)]),
              (''source'', JString ''oracle'')]"

text \<open>A candidate without \<open>sin_weights\<close>.\<close>

definition trait_incomplete :: json where
  "trait_incomplete = JObject [(''definition'', JString ''d'')]"

definition tm_one :: trait_manager where
  "tm_one =
     \<lparr>library = [(''meta'', JObject []), (''traits'', JObject [(''lust_for_power'', trait_a)])],
      trait_file = None, writes = 0\<rparr>"

definition tm_empty :: trait_manager where
  "tm_empty = \<lparr>library = skeleton, trait_file = Some skeleton, writes = 1\<rparr>"

text \<open>A manager whose file holds a document without the \<open>traits\<close> field.\<close>

definition tm_no_traits :: trait_manager where
  "tm_no_traits = \<lparr>library = [], trait_file = Some [(''meta'', JObject [])], writes = 1\<rparr>"

text \<open>A library whose only trait has \<open>pride\<close> in its key and weight zero for \<open>pride\<close>.\<close>

definition tm_pride :: trait_manager where
  "tm_pride =
     \<lparr>library = [(''meta'', JObject []), (''traits'', JObject [(''wounded_pride'', trait_a)])],
      trait_file = None, writes = 0\<rparr>"

definition cs_sample :: pydict where
  "cs_sample = [(''lust_for_power'', trait_b), (''hoarding'', trait_b), (''x'', trait_incomplete)]"

text \<open>A complete candidate followed by one that is \<open>None\<close>.\<close>

definition cs_raise :: pydict where
  "cs_raise = [(''hoarding'', trait_b), (''x'', JNull)]"

text \<open>\<open>tm_empty\<close> with \<open>hoarding\<close> in the library in memory only.\<close>

definition tm_hoarding_unsaved :: trait_manager where
  "tm_hoarding_unsaved =
     \<lparr>library = [(''meta'', JObject [(''version'', JString ''2.1''),
                          (''description'', JString ''Poly-Sin Weighting Library'')]),
                 (''traits'', JObject [(''hoarding'', trait_b)])],
      trait_file = Some skeleton, writes = 1\<rparr>"

text \<open>\<open>tm_one\<close> after \<open>assimilate\<close> of \<open>cs_sample\<close>.\<close>

definition tm_two :: trait_manager where
  "tm_two =
     \<lparr>library = [(''meta'', JObject []),
                 (''traits'', JObject [(''lust_for_power'', trait_a), (''hoarding'', trait_b)])],
      trait_file = Some [(''meta'', JObject []),
                 (''traits'', JObject [(''lust_for_power'', trait_a), (''hoarding'', trait_b)])],
      writes = 1\<rparr>"


section \<open>Dicts and the loop of \<open>assimilate\<close>\<close>


lemma dict_get_dict_set_same: "dict_get (dict_set d k v) k = Some v"
  by (induction d) (auto simp: dict_get_def)

lemma dict_get_dict_set_other: "k' \<noteq> k \<Longrightarrow> dict_get (dict_set d k v) k' = dict_get d k'"
  by (induction d) (auto simp: dict_get_def)

lemma dict_set_new: "k \<notin> set (keys d) \<Longrightarrow> dict_set d k v = d @ [(k, v)]"
  by (induction d) (auto simp: keys_def)

lemma dict_set_dict_set: "dict_set (dict_set d k v) k w = dict_set d k w"
  by (induction d) auto

lemma dict_set_same: "dict_get d k = Some v \<Longrightarrow> dict_set d k v = d"
  by (induction d) (auto simp: dict_get_def split: if_splits)

lemma dict_get_append_known:
  "k \<in> set (keys t) \<Longrightarrow> dict_get (t @ new) k = dict_get t k"
  by (auto simp: dict_get_def keys_def map_add_def map_of_eq_None_iff split: option.splits)

lemma body_object:
  assumes "dict_get lib ''traits'' = Some (JObject t)"
  shows "assimilate_body (k, d) (lib, added) =
     (if k \<in> set (keys t) then Inr (lib, added)
      else case valid_structure d of
             Inl e \<Rightarrow> Inl e
           | Inr ok \<Rightarrow>
               if ok then Inr (dict_set lib ''traits'' (JObject (t @ [(k, d)])), added @ [k])
               else Inr (lib, added))"
  using assms by (simp add: assimilate_body_def dict_set_new split: sum.splits)

lemma body_not_object:
  assumes "\<forall>t. dict_get lib ''traits'' \<noteq> Some (JObject t)"
      and "assimilate_body c (lib, added) = Inr (lib', added')"
  shows "lib' = lib \<and> added' = added"
proof -
  obtain k d where c: "c = (k, d)" by (cases c)
  show ?thesis
  proof (cases "dict_get lib ''traits''")
    case None
    with assms(2) c show ?thesis by (simp add: assimilate_body_def)
  next
    case (Some tv)
    with assms(1) have "\<forall>t. tv \<noteq> JObject t" by simp
    then have "py_setitem tv k d = Inl TypeError" by (cases tv) auto
    with assms(2) c Some show ?thesis
      by (auto simp: assimilate_body_def split: sum.splits if_splits)
  qed
qed

lemma loop_not_object:
  assumes "\<forall>t. dict_get lib ''traits'' \<noteq> Some (JObject t)"
      and "assimilate_loop cs lib added = (r, lib')"
  shows "lib' = lib \<and> (\<forall>a. r = Inr a \<longrightarrow> a = added)"
  using assms
proof (induction cs arbitrary: added)
  case Nil
  then show ?case by auto
next
  case (Cons c cs)
  show ?case
  proof (cases "assimilate_body c (lib, added)")
    case (Inl e)
    with Cons.prems show ?thesis by auto
  next
    case (Inr p)
    obtain lib1 added1 where p: "p = (lib1, added1)" by (cases p)
    from body_not_object[OF Cons.prems(1)] Inr p have "lib1 = lib" "added1 = added" by auto
    with Cons.prems Inr p have "assimilate_loop cs lib added = (r, lib')" by simp
    from Cons.IH[OF Cons.prems(1) this] show ?thesis .
  qed
qed

lemma loop_object:
  assumes "dict_get lib ''traits'' = Some (JObject t)"
      and "assimilate_loop cs lib added = (r, lib')"
  shows "\<exists>new. lib' = dict_set lib ''traits'' (JObject (t @ new))
           \<and> subseq new cs
           \<and> set (keys new) \<inter> set (keys t) = {}
           \<and> distinct (keys new)
           \<and> (\<forall>c \<in> set new. valid_structure (snd c) = Inr True)
           \<and> (\<forall>a. r = Inr a \<longrightarrow> a = added @ keys new
                 \<and> (\<forall>c \<in> set cs. fst c \<in> set (keys (t @ new)) \<or> valid_structure (snd c) = Inr False))"
  using assms
proof (induction cs arbitrary: lib t added)
  case Nil
  then show ?case
    by (intro exI[of _ "[]"]) (auto simp: dict_set_same keys_def)
next
  case (Cons c cs)
  obtain k d where c: "c = (k, d)" by (cases c)
  note body = body_object[OF Cons.prems(1), of k d added]
  show ?case
  proof (cases "assimilate_body c (lib, added)")
    case (Inl e)
    with Cons.prems show ?thesis
      by (intro exI[of _ "[]"]) (auto simp: dict_set_same keys_def)
  next
    case (Inr p)
    obtain lib1 added1 where p: "p = (lib1, added1)" by (cases p)
    from Cons.prems(2) Inr p have loop: "assimilate_loop cs lib1 added1 = (r, lib')" by simp
    show ?thesis
    proof (cases "lib1 = lib \<and> added1 = added")
      case True
      with loop Cons.IH[OF Cons.prems(1), of added] obtain new where
        new: "lib' = dict_set lib ''traits'' (JObject (t @ new))" "subseq new cs"
          "set (keys new) \<inter> set (keys t) = {}" "distinct (keys new)"
          "\<forall>c \<in> set new. valid_structure (snd c) = Inr True"
          "\<forall>a. r = Inr a \<longrightarrow> a = added @ keys new
                 \<and> (\<forall>c \<in> set cs. fst c \<in> set (keys (t @ new)) \<or> valid_structure (snd c) = Inr False)"
        by blast
      from True Inr p c body have skip: "k \<in> set (keys t) \<or> valid_structure d = Inr False"
        by (auto split: if_splits sum.splits)
      show ?thesis
        apply (rule exI[of _ new])
        using new skip c by (auto simp: keys_def)
    next
      case False
      with Inr p c body have ins: "k \<notin> set (keys t)" "valid_structure d = Inr True"
        "lib1 = dict_set lib ''traits'' (JObject (t @ [(k, d)]))" "added1 = added @ [k]"
        by (auto split: if_splits sum.splits)
      have "dict_get lib1 ''traits'' = Some (JObject (t @ [(k, d)]))"
        by (simp add: ins(3) dict_get_dict_set_same)
      from Cons.IH[OF this loop] obtain new where
        new: "lib' = dict_set lib1 ''traits'' (JObject ((t @ [(k, d)]) @ new))" "subseq new cs"
          "set (keys new) \<inter> set (keys (t @ [(k, d)])) = {}" "distinct (keys new)"
          "\<forall>c \<in> set new. valid_structure (snd c) = Inr True"
          "\<forall>a. r = Inr a \<longrightarrow> a = added1 @ keys new
                 \<and> (\<forall>c \<in> set cs. fst c \<in> set (keys ((t @ [(k, d)]) @ new)) \<or> valid_structure (snd c) = Inr False)"
        by blast
      show ?thesis
        apply (rule exI[of _ "(k, d) # new"])
        using new ins c by (auto simp: keys_def dict_set_dict_set)
    qed
  qed
qed


lemma traits_of_doc_set: "traits_of_doc (dict_set lib ''traits'' (JObject x)) = x"
  by (simp add: traits_of_doc_def dict_get_dict_set_same)

lemma traits_of_doc_object:
  "dict_get lib ''traits'' = Some (JObject t) \<Longrightarrow> traits_of_doc lib = t"
  by (simp add: traits_of_doc_def)

lemma traits_of_doc_nonempty:
  "traits_of_doc lib \<noteq> [] \<Longrightarrow> dict_get lib ''traits'' = Some (JObject (traits_of_doc lib))"
  by (auto simp: traits_of_doc_def split: option.splits json.splits)

lemma assimilate_loopD:
  assumes "assimilate tm cs = (r, tm')"
  shows "assimilate_loop cs (library tm) [] = (r, library tm')
       \<and> tm' = (case r of
                  Inl e \<Rightarrow> tm\<lparr>library := library tm'\<rparr>
                | Inr added \<Rightarrow> if added \<noteq> [] then save (tm\<lparr>library := library tm'\<rparr>)
                               else tm\<lparr>library := library tm'\<rparr>)"
proof -
  obtain r0 lib0 where l: "assimilate_loop cs (library tm) [] = (r0, lib0)"
    by (cases "assimilate_loop cs (library tm) []")
  with assms show ?thesis
    by (cases r0) (auto simp: assimilate_def save_def split: if_splits)
qed

text \<open>What a call does to a library whose traits field holds a dict.\<close>

lemma assimilate_object:
  assumes "dict_get (library tm) ''traits'' = Some (JObject t)"
      and "assimilate tm cs = (r, tm')"
  shows "\<exists>new. traits_dict tm' = t @ new
           \<and> library tm' = dict_set (library tm) ''traits'' (JObject (t @ new))
           \<and> subseq new cs
           \<and> set (keys new) \<inter> set (keys t) = {}
           \<and> distinct (keys new)
           \<and> (\<forall>c \<in> set new. valid_structure (snd c) = Inr True)
           \<and> (\<forall>a. r = Inr a \<longrightarrow> a = keys new
                 \<and> (\<forall>c \<in> set cs. fst c \<in> set (keys (t @ new)) \<or> valid_structure (snd c) = Inr False))"
proof -
  from assimilate_loopD[OF assms(2)]
  have l: "assimilate_loop cs (library tm) [] = (r, library tm')" by simp
  from loop_object[OF assms(1) l] obtain new where
    new: "library tm' = dict_set (library tm) ''traits'' (JObject (t @ new))"
      "subseq new cs" "set (keys new) \<inter> set (keys t) = {}" "distinct (keys new)"
      "\<forall>c \<in> set new. valid_structure (snd c) = Inr True"
      "\<forall>a. r = Inr a \<longrightarrow> a = [] @ keys new
                 \<and> (\<forall>c \<in> set cs. fst c \<in> set (keys (t @ new)) \<or> valid_structure (snd c) = Inr False)"
    by blast
  have "traits_dict tm' = t @ new"
    by (simp add: traits_dict_def new(1) traits_of_doc_set)
  with new show ?thesis by (intro exI[of _ new]) simp
qed

text \<open>... and to any other library: nothing.\<close>

lemma assimilate_not_object:
  assumes "\<forall>t. dict_get (library tm) ''traits'' \<noteq> Some (JObject t)"
      and "assimilate tm cs = (r, tm')"
  shows "tm' = tm \<and> (\<forall>a. r = Inr a \<longrightarrow> a = [])"
proof -
  from assimilate_loopD[OF assms(2)]
  have l: "assimilate_loop cs (library tm) [] = (r, library tm')"
    and t: "tm' = (case r of
                  Inl e \<Rightarrow> tm\<lparr>library := library tm'\<rparr>
                | Inr added \<Rightarrow> if added \<noteq> [] then save (tm\<lparr>library := library tm'\<rparr>)
                               else tm\<lparr>library := library tm'\<rparr>)" by simp_all
  from loop_not_object[OF assms(1) l] have e: "library tm' = library tm" "\<forall>a. r = Inr a \<longrightarrow> a = []"
    by simp_all
  have "tm' = tm"
  proof (cases r)
    case (Inl x)
    with t e show ?thesis by simp
  next
    case (Inr a)
    with e have "a = []" by simp
    with t e Inr show ?thesis by simp
  qed
  with e show ?thesis by simp
qed


lemma valid_structure_mapping:
  "valid_structure (JObject fs) =
     Inr (''definition'' \<in> set (keys fs) \<and> ''sin_weights'' \<in> set (keys fs))"
  by (simp add: valid_structure_def)

lemma body_preserves_object:
  assumes "dict_get lib ''traits'' = Some (JObject t)"
      and "assimilate_body c (lib, added) = Inr (lib1, added1)"
  shows "\<exists>t1. dict_get lib1 ''traits'' = Some (JObject t1)"
proof -
  obtain k d where c: "c = (k, d)" by (cases c)
  from assms show ?thesis
    unfolding c body_object[OF assms(1)]
    by (auto simp: dict_get_dict_set_same split: if_splits sum.splits)
qed

lemma loop_returns:
  assumes "dict_get lib ''traits'' = Some (JObject t)"
      and "list_all (is_mapping \<circ> snd) cs"
  shows "\<exists>a lib'. assimilate_loop cs lib added = (Inr a, lib')"
  using assms
proof (induction cs arbitrary: lib t added)
  case Nil
  then show ?case by simp
next
  case (Cons c cs)
  obtain k d where c: "c = (k, d)" by (cases c)
  from Cons.prems(2) c obtain fs where d: "d = JObject fs"
    by (cases d) (auto simp: is_mapping_def)
  from body_object[OF Cons.prems(1), of k d added] d
  obtain lib1 added1 where b: "assimilate_body c (lib, added) = Inr (lib1, added1)"
    unfolding c by (auto simp: valid_structure_mapping split: if_splits)
  from body_preserves_object[OF Cons.prems(1) b] obtain t1 where
    "dict_get lib1 ''traits'' = Some (JObject t1)" by blast
  from Cons.IH[OF this, of added1] Cons.prems(2) b show ?case by simp
qed

lemma assimilate_returns:
  assumes "dict_get (library tm) ''traits'' = Some (JObject t)"
      and "list_all (is_mapping \<circ> snd) cs"
  shows "\<exists>added tm'. assimilate tm cs = (Inr added, tm')"
proof -
  from loop_returns[OF assms, of "[]"] obtain a lib' where
    "assimilate_loop cs (library tm) [] = (Inr a, lib')" by blast
  then show ?thesis by (simp add: assimilate_def)
qed

lemma loop_all_skip:
  assumes "dict_get lib ''traits'' = Some (JObject t)"
      and "\<forall>c \<in> set cs. fst c \<in> set (keys t) \<or> valid_structure (snd c) = Inr False"
  shows "assimilate_loop cs lib a = (Inr a, lib)"
  using assms(2)
proof (induction cs)
  case Nil
  then show ?case by simp
next
  case (Cons c cs)
  obtain k d where c: "c = (k, d)" by (cases c)
  from Cons.prems c have "assimilate_body c (lib, a) = Inr (lib, a)"
    unfolding c body_object[OF assms(1)] by auto
  with Cons show ?case by simp
qed

lemma loop_twice:
  assumes "assimilate_loop cs lib [] = (Inr added, lib')"
  shows "assimilate_loop cs lib' [] = (Inr [], lib')"
proof (cases "\<exists>t. dict_get lib ''traits'' = Some (JObject t)")
  case True
  then obtain t where t: "dict_get lib ''traits'' = Some (JObject t)" by blast
  from loop_object[OF t assms] obtain new where
    new: "lib' = dict_set lib ''traits'' (JObject (t @ new))"
      "\<forall>c \<in> set cs. fst c \<in> set (keys (t @ new)) \<or> valid_structure (snd c) = Inr False"
    by blast
  from new(1) have "dict_get lib' ''traits'' = Some (JObject (t @ new))"
    by (simp add: dict_get_dict_set_same)
  from loop_all_skip[OF this new(2)] show ?thesis .
next
  case False
  then have n: "\<forall>t. dict_get lib ''traits'' \<noteq> Some (JObject t)" by simp
  from loop_not_object[OF n assms] have "lib' = lib" "added = []" by simp_all
  with assms show ?thesis by simp
qed

lemma new_keys_object:
  assumes "traits_dict tm = t" "traits_dict tm' = t @ new" "set (keys new) \<inter> set (keys t) = {}"
  shows "new_keys tm tm' = keys new"
proof -
  have "filter (\<lambda>k. k \<notin> set (keys t)) (keys t) = []" by simp
  moreover from assms(3) have "filter (\<lambda>k. k \<notin> set (keys t)) (keys new) = keys new"
    by (auto simp: filter_id_conv)
  ultimately show ?thesis using assms(1,2) by (simp add: new_keys_def keys_def)
qed

lemma new_keys_same: "new_keys tm tm = []"
  by (simp add: new_keys_def)

lemma dict_get_append_unknown:
  "k \<notin> set (keys new) \<Longrightarrow> dict_get (t @ new) k = dict_get t k"
proof -
  assume "k \<notin> set (keys new)"
  then have "map_of new k = None" by (simp add: keys_def map_of_eq_None_iff)
  then show ?thesis by (simp add: dict_get_def map_add_def split: option.splits)
qed

lemma subseq_set: "subseq xs ys \<Longrightarrow> set xs \<subseteq> set ys"
  by (induction rule: list_emb.induct) auto

lemma map_of_subseq_distinct:
  assumes "subseq new cs" and "distinct (map fst cs)" and "(k, d) \<in> set new"
  shows "map_of cs k = Some d"
proof -
  from subseq_set[OF assms(1)] assms(3) have "(k, d) \<in> set cs" by blast
  with assms(2) show ?thesis by simp
qed

lemma loop_skip_incomplete:
  assumes "dict_get lib ''traits'' = Some (JObject t)"
      and "valid_structure d = Inr False"
  shows "assimilate_loop (cs1 @ (k, d) # cs2) lib a = assimilate_loop (cs1 @ cs2) lib a"
  using assms(1)
proof (induction cs1 arbitrary: lib t a)
  case Nil
  from body_object[OF Nil, of k d a] assms(2)
  have "assimilate_body (k, d) (lib, a) = Inr (lib, a)" by simp
  then show ?case by simp
next
  case (Cons c cs1)
  show ?case
  proof (cases "assimilate_body c (lib, a)")
    case (Inl e)
    then show ?thesis by simp
  next
    case (Inr p)
    obtain lib1 a1 where p: "p = (lib1, a1)" by (cases p)
    from body_preserves_object[OF Cons.prems] Inr p obtain t1 where
      "dict_get lib1 ''traits'' = Some (JObject t1)" by blast
    from Cons.IH[OF this, of a1] Inr p show ?thesis by simp
  qed
qed

section \<open>Whitespace and fences\<close>

lemma first_char_facts:
  "c \<in> set json_first_chars \<Longrightarrow> \<not> py_isspace c \<and> c \<noteq> CHR 0x60 \<and> c \<noteq> CHR ''j''"
  by (auto simp: json_first_chars_def py_isspace_def)

lemma backquote_not_space: "\<not> py_isspace (CHR 0x60)"
  by (simp add: py_isspace_def)

lemma j_not_space: "\<not> py_isspace (CHR ''j'')"
  by (simp add: py_isspace_def)

lemma rstrip_whitespace: "whitespace w \<Longrightarrow> rstrip w = []"
  by (induction w) (auto simp: whitespace_def)

lemma rstrip_append_whitespace: "whitespace w \<Longrightarrow> rstrip (xs @ w) = rstrip xs"
  by (induction xs) (auto simp: rstrip_whitespace Let_def)

lemma rstrip_snoc: "\<not> py_isspace c \<Longrightarrow> rstrip (xs @ [c]) = xs @ [c]"
  by (induction xs) (auto simp: Let_def)

lemma rstrip_Cons: "\<not> py_isspace c \<Longrightarrow> rstrip (c # xs) = c # rstrip xs"
  by (simp add: Let_def)

lemma dropWhile_whitespace:
  "whitespace w \<Longrightarrow> dropWhile py_isspace (w @ xs) = dropWhile py_isspace xs"
  by (simp add: whitespace_def list_all_iff)

lemma begins_jsonD:
  assumes "begins_json d"
  obtains c rest where "dropWhile py_isspace d = c # rest" "c \<in> set json_first_chars"
  using assms by (auto simp: begins_json_def split: list.splits)

lemma dropWhile_begins:
  assumes "dropWhile py_isspace d = c # rest"
  shows "dropWhile py_isspace (d @ ys) = c # rest @ ys"
proof -
  from assms have "\<exists>x \<in> set d. \<not> py_isspace x"
    by (metis dropWhile_eq_Nil_conv list.distinct(1))
  then show ?thesis using assms by (auto simp: dropWhile_append)
qed

lemma strip_fenced:
  assumes "whitespace o1" and "whitespace o2"
  shows "strip (o1 @ fence @ m @ fence @ o2) = fence @ m @ fence"
proof -
  have "dropWhile py_isspace (o1 @ fence @ m @ fence @ o2) = fence @ m @ fence @ o2"
    using assms(1) by (simp add: dropWhile_whitespace) (simp add: fence_def backquote_not_space)
  moreover have "rstrip (fence @ m @ fence @ o2) = rstrip ((fence @ m @ fence) @ o2)" by simp
  moreover have "rstrip ((fence @ m @ fence) @ o2) = rstrip (fence @ m @ fence)"
    using assms(2) by (rule rstrip_append_whitespace)
  moreover have "rstrip (fence @ m @ fence) = fence @ m @ fence"
    using rstrip_snoc[OF backquote_not_space, of "fence @ m @ [CHR 0x60, CHR 0x60]"]
    by (simp add: fence_def)
  ultimately show ?thesis by (simp add: strip_def)
qed

lemma strip_begins:
  assumes "dropWhile py_isspace d = c # rest" and "c \<in> set json_first_chars"
  shows "strip d = c # rstrip rest" and "normalize d = strip d"
proof -
  from first_char_facts[OF assms(2)] have c: "\<not> py_isspace c" "c \<noteq> CHR 0x60" by simp_all
  show s: "strip d = c # rstrip rest"
    by (simp add: strip_def assms(1) Let_def c(1))
  from c(2) have "\<not> prefix fence (c # rstrip rest)" by (simp add: fence_def)
  with s show "normalize d = strip d" by (simp add: normalize_def)
qed

lemma sub_leading_fence_fenced:
  assumes "dropWhile py_isspace d = c # rest" and "c \<in> set json_first_chars"
      and "tag = [] \<or> tag = ''json''" and "whitespace w1"
  shows "sub_leading_fence (fence @ tag @ w1 @ d @ ys) = c # rest @ ys"
proof -
  from first_char_facts[OF assms(2)] have c: "\<not> py_isspace c" "c \<noteq> CHR ''j''" by simp_all
  have body: "dropWhile py_isspace (w1 @ d @ ys) = c # rest @ ys"
    by (simp add: dropWhile_whitespace[OF assms(4)] dropWhile_begins[OF assms(1)])
  have drop3: "drop 3 (fence @ tag @ w1 @ d @ ys) = tag @ w1 @ d @ ys"
    by (simp add: fence_def)
  have pre: "prefix fence (fence @ tag @ w1 @ d @ ys)" by simp
  from assms(3) show ?thesis
  proof
    assume t: "tag = []"
    have "\<not> prefix ''json'' (w1 @ d @ ys)"
    proof
      assume p: "prefix ''json'' (w1 @ d @ ys)"
      then obtain zs where z: "w1 @ d @ ys = CHR ''j'' # zs" by (auto simp: prefix_def)
      then have "dropWhile py_isspace (w1 @ d @ ys) = CHR ''j'' # zs"
        by (simp add: j_not_space)
      with body c(2) show False by simp
    qed
    with pre drop3 t body show ?thesis by (simp add: sub_leading_fence_def)
  next
    assume t: "tag = ''json''"
    have "prefix ''json'' (tag @ w1 @ d @ ys)" by (simp add: t)
    moreover have "drop 4 (tag @ w1 @ d @ ys) = w1 @ d @ ys" by (simp add: t)
    ultimately show ?thesis using pre drop3 body by (simp add: sub_leading_fence_def)
  qed
qed

lemma sub_trailing_fence_fenced:
  assumes "whitespace w2"
  shows "sub_trailing_fence (xs @ w2 @ fence) = rstrip xs"
proof -
  have "suffix fence (xs @ w2 @ fence)" by (simp add: suffix_def)
  moreover have "take (length (xs @ w2 @ fence) - 3) (xs @ w2 @ fence) = xs @ w2"
    by (simp add: fence_def)
  ultimately show ?thesis
    by (simp add: sub_trailing_fence_def rstrip_append_whitespace[OF assms])
qed

lemma normalize_fenced:
  assumes "begins_json d" and "tag = [] \<or> tag = ''json''"
      and "whitespace w1" and "whitespace w2" and "whitespace o1" and "whitespace o2"
  shows "normalize (o1 @ fence @ tag @ w1 @ d @ w2 @ fence @ o2) = normalize d"
proof -
  from begins_jsonD[OF assms(1)] obtain c rest where
    d: "dropWhile py_isspace d = c # rest" and c: "c \<in> set json_first_chars" by blast
  from first_char_facts[OF c] have nc: "\<not> py_isspace c" by simp
  have "strip (o1 @ fence @ (tag @ w1 @ d @ w2) @ fence @ o2) = fence @ (tag @ w1 @ d @ w2) @ fence"
    using assms(5,6) by (rule strip_fenced)
  then have s: "strip (o1 @ fence @ tag @ w1 @ d @ w2 @ fence @ o2) = fence @ tag @ w1 @ d @ w2 @ fence"
    by simp
  have l: "sub_leading_fence (fence @ tag @ w1 @ d @ w2 @ fence) = c # rest @ w2 @ fence"
    using d c assms(2,3) by (rule sub_leading_fence_fenced)
  have "sub_trailing_fence ((c # rest) @ w2 @ fence) = rstrip (c # rest)"
    using assms(4) by (rule sub_trailing_fence_fenced)
  then have t: "sub_trailing_fence (c # rest @ w2 @ fence) = c # rstrip rest"
    by (simp add: Let_def nc)
  have "normalize (o1 @ fence @ tag @ w1 @ d @ w2 @ fence @ o2) = c # rstrip rest"
    by (simp add: normalize_def s l t del: rstrip.simps)
  with strip_begins[OF d c] show ?thesis by simp
qed

section \<open>The lines of the summary\<close>

lemma py_gt_zero_number: "is_number w \<Longrightarrow> py_gt_zero w = Inr (positive_weight w)"
  by (cases w) (auto simp: is_number_def positive_weight_def)

lemma weight_items_numbers:
  "list_all (is_number \<circ> snd) ws \<Longrightarrow>
   weight_items repr ws
     = Inr (map (\<lambda>(s, w). s @ '': '' @ py_format repr w) (filter (\<lambda>(s, w). positive_weight w) ws))"
  by (induction ws) (auto simp: py_gt_zero_number)

lemma summary_line_wf:
  assumes "wf_trait data"
  shows "summary_line repr key data = Inr (spec_entry repr (key, data))"
proof -
  from assms obtain fs where fs: "data = JObject fs" by (cases data) (auto simp: wf_trait_def)
  show ?thesis
  proof (cases "dict_get fs ''sin_weights''")
    case None
    then show ?thesis
      by (simp add: fs summary_line_def spec_entry_def spec_weights_def trait_weights_def
          definition_text_def complexity_text_def trait_field_def)
  next
    case (Some v)
    with assms fs obtain ws where ws: "v = JObject ws" "list_all (is_number \<circ> snd) ws"
      by (cases v) (auto simp: wf_trait_def)
    with Some show ?thesis
      by (simp add: fs summary_line_def spec_entry_def spec_weights_def trait_weights_def
          definition_text_def complexity_text_def trait_field_def weight_items_numbers)
  qed
qed

lemma summary_lines_wf:
  "list_all (wf_trait \<circ> snd) t \<Longrightarrow> summary_lines repr t = Inr (map (spec_entry repr) t)"
  by (induction t) (auto simp: summary_line_wf)

lemma sublist_split:
  assumes "c \<notin> set p" and "sublist p (a @ c # b)"
  shows "sublist p a \<or> sublist p b"
proof -
  from assms(2) consider "sublist p a" | "sublist p (c # b)"
    | p1 p2 where "p = p1 @ p2" "suffix p1 a" "prefix p2 (c # b)"
    unfolding sublist_append by blast
  then show ?thesis
  proof cases
    case 1
    then show ?thesis by simp
  next
    case 2
    then have "prefix p (c # b) \<or> sublist p b" by (simp add: sublist_Cons_right)
    then show ?thesis
    proof
      assume "prefix p (c # b)"
      with assms(1) have "p = []" by (cases p) auto
      then show ?thesis by simp
    qed simp
  next
    case 3
    from 3(3) assms(1) 3(1) have "p2 = []" by (cases p2) auto
    with 3(1,2) have "suffix p a" by simp
    then show ?thesis by (auto simp: suffix_def sublist_def intro: exI[of _ "[]"])
  qed
qed

lemma pride_not_in_entry:
  assumes "\<not> sublist ''pride'' key" and "\<not> sublist ''pride'' d" and "\<not> sublist ''pride'' c"
  shows "\<not> sublist ''pride''
           (''- '' @ key @ '': '' @ d @ '' [Weights: wrath: 0.6] (complexity: '' @ c @ '')'')"
proof
  assume s: "sublist ''pride''
           (''- '' @ key @ '': '' @ d @ '' [Weights: wrath: 0.6] (complexity: '' @ c @ '')'')"
  have sp: "CHR '' '' \<notin> set ''pride''" "CHR '':'' \<notin> set ''pride''" "CHR '')'' \<notin> set ''pride''"
    by simp_all
  have n1: "\<not> sublist ''pride'' ''-''" by code_simp
  have n2: "\<not> sublist ''pride'' ''[Weights: wrath: 0.6] (complexity:''" by code_simp
  have n3: "\<not> sublist ''pride'' []" by simp
  from s have "sublist ''pride''
     (''-'' @ CHR '' '' # (key @ '': '' @ d @ '' [Weights: wrath: 0.6] (complexity: '' @ c @ '')''))"
    by simp
  from sublist_split[OF sp(1) this] n1
  have "sublist ''pride'' (key @ CHR '':'' # ('' '' @ d @ '' [Weights: wrath: 0.6] (complexity: '' @ c @ '')''))"
    by simp
  from sublist_split[OF sp(2) this] assms(1)
  have "sublist ''pride'' ([] @ CHR '' '' # (d @ '' [Weights: wrath: 0.6] (complexity: '' @ c @ '')''))"
    by simp
  from sublist_split[OF sp(1) this] n3
  have "sublist ''pride'' (d @ CHR '' '' # (''[Weights: wrath: 0.6] (complexity: '' @ c @ '')''))"
    by simp
  from sublist_split[OF sp(1) this] assms(2)
  have "sublist ''pride'' (''[Weights: wrath: 0.6] (complexity:'' @ CHR '' '' # (c @ '')''))"
    by simp
  from sublist_split[OF sp(1) this] n2
  have "sublist ''pride'' (c @ CHR '')'' # [])" by simp
  from sublist_split[OF sp(3) this] assms(3) n3 show False by simp
qed

lemma spec_weights_example:
  assumes "repr (JFloat float_0_6) = ''0.6''"
  shows "spec_weights repr [(''pride'', JFloat float_0_0), (''wrath'', JFloat float_0_6)] = ''wrath: 0.6''"
  using assms
  by (simp add: spec_weights_def positive_weight_def float_gt_zero_def float_0_0_def float_0_6_def)

section \<open>Calls of \<open>assimilate\<close> that return\<close>

text \<open>
  On a library with a traits mapping, a candidate that is a dict without the field
  \<open>definition\<close> or without the field \<open>sin_weights\<close> is skipped: the call ends exactly
  as the call without that candidate does, the data stored under its key is what it
  was, and the returned list does not hold its key.
\<close>

lemma assimilate_skips_incomplete_mapping:
  assumes "dict_get (library tm) ''traits'' = Some (JObject t)"
      and "''definition'' \<notin> set (keys fs) \<or> ''sin_weights'' \<notin> set (keys fs)"
      and "k \<notin> set (keys (cs1 @ cs2))"
      and "assimilate tm (cs1 @ (k, JObject fs) # cs2) = (r, tm')"
  shows "assimilate tm (cs1 @ cs2) = (r, tm')
       \<and> dict_get (traits_dict tm') k = dict_get (traits_dict tm) k
       \<and> (\<forall>added. r = Inr added \<longrightarrow> k \<notin> set added)"
proof -
  from assms(2) have "valid_structure (JObject fs) = Inr False"
    by (auto simp: valid_structure_mapping)
  from loop_skip_incomplete[OF assms(1) this, of cs1 k cs2 "[]"]
  have "assimilate tm (cs1 @ (k, JObject fs) # cs2) = assimilate tm (cs1 @ cs2)"
    by (simp add: assimilate_def)
  with assms(4) have same: "assimilate tm (cs1 @ cs2) = (r, tm')" by simp
  from assimilate_object[OF assms(1) same] obtain new where
    new: "traits_dict tm' = t @ new" "subseq new (cs1 @ cs2)"
      "\<forall>a. r = Inr a \<longrightarrow> a = keys new" by blast
  from new(2) have "subseq (keys new) (keys (cs1 @ cs2))"
    unfolding keys_def by (rule subseq_map)
  then have "set (keys new) \<subseteq> set (keys (cs1 @ cs2))" by (rule subseq_set)
  with assms(3) have k: "k \<notin> set (keys new)" by auto
  from assms(1) have "traits_dict tm = t" by (simp add: traits_dict_def traits_of_doc_object)
  with new(1) k have "dict_get (traits_dict tm') k = dict_get (traits_dict tm) k"
    by (simp add: dict_get_append_unknown)
  with same new(3) k show ?thesis by auto
qed

lemma assimilate_skips_incomplete_mapping_witness:
  "dict_get (library tm_one) ''traits'' = Some (JObject [(''lust_for_power'', trait_a)])
   \<and> ''sin_weights'' \<notin> set (keys [(''definition'', JString ''d'')])
   \<and> ''x'' \<notin> set (keys ([(''lust_for_power'', trait_b), (''hoarding'', trait_b)] @ []))
   \<and> assimilate tm_one ([(''lust_for_power'', trait_b), (''hoarding'', trait_b)]
         @ (''x'', JObject [(''definition'', JString ''d'')]) # []) = (Inr [''hoarding''], tm_two)
   \<and> assimilate tm_one ([(''lust_for_power'', trait_b), (''hoarding'', trait_b)] @ [])
       = (Inr [''hoarding''], tm_two)
   \<and> dict_get (traits_dict tm_two) ''x'' = dict_get (traits_dict tm_one) ''x''"
proof -
  have h1: "dict_get (library tm_one) ''traits'' = Some (JObject [(''lust_for_power'', trait_a)])"
    by code_simp
  have h2: "''definition'' \<notin> set (keys [(''definition'', JString ''d'')])
            \<or> ''sin_weights'' \<notin> set (keys [(''definition'', JString ''d'')])"
    by code_simp
  have h3: "''x'' \<notin> set (keys ([(''lust_for_power'', trait_b), (''hoarding'', trait_b)] @ []))"
    by code_simp
  have h4: "assimilate tm_one ([(''lust_for_power'', trait_b), (''hoarding'', trait_b)]
         @ (''x'', JObject [(''definition'', JString ''d'')]) # []) = (Inr [''hoarding''], tm_two)"
    by code_simp
  have h5: "''sin_weights'' \<notin> set (keys [(''definition'', JString ''d'')])"
    by code_simp
  from assimilate_skips_incomplete_mapping[OF h1 h2 h3 h4] h1 h3 h4 h5 show ?thesis by blast
qed

text \<open>
  A call on a library with a traits mapping and candidates that are dicts returns; and
  whenever a call returns, the same call made again returns the empty list and leaves
  the manager as it was.
\<close>

lemma assimilate_idempotent:
  "(dict_get (library tm) ''traits'' = Some (JObject t) \<and> list_all (is_mapping \<circ> snd) cs
      \<longrightarrow> (\<exists>added tm'. assimilate tm cs = (Inr added, tm')))
   \<and> (\<forall>added tm'. assimilate tm cs = (Inr added, tm') \<longrightarrow> assimilate tm' cs = (Inr [], tm'))"
proof (intro conjI impI allI)
  assume "dict_get (library tm) ''traits'' = Some (JObject t) \<and> list_all (is_mapping \<circ> snd) cs"
  then show "\<exists>added tm'. assimilate tm cs = (Inr added, tm')"
    using assimilate_returns by blast
next
  fix added tm'
  assume a: "assimilate tm cs = (Inr added, tm')"
  from assimilate_loopD[OF a]
  have "assimilate_loop cs (library tm) [] = (Inr added, library tm')" by simp
  from loop_twice[OF this] show "assimilate tm' cs = (Inr [], tm')"
    by (simp add: assimilate_def)
qed

lemma assimilate_idempotent_witness:
  "dict_get (library tm_one) ''traits'' = Some (JObject [(''lust_for_power'', trait_a)])
   \<and> list_all (is_mapping \<circ> snd) cs_sample
   \<and> assimilate tm_one cs_sample = (Inr [''hoarding''], tm_two)
   \<and> assimilate tm_two cs_sample = (Inr [], tm_two)"
proof -
  have h0: "dict_get (library tm_one) ''traits'' = Some (JObject [(''lust_for_power'', trait_a)])
            \<and> list_all (is_mapping \<circ> snd) cs_sample"
    by code_simp
  have h1: "assimilate tm_one cs_sample = (Inr [''hoarding''], tm_two)"
    by code_simp
  from assimilate_idempotent[of tm_one "[(''lust_for_power'', trait_a)]" cs_sample] h1
  have "assimilate tm_two cs_sample = (Inr [], tm_two)" by blast
  with h0 h1 show ?thesis by simp
qed

text \<open>
  A call that returns has written the file, once and with the whole library, if a key
  was newly inserted, and otherwise has changed nothing. A call that ends with an
  exception has not reached the save.
\<close>

lemma assimilate_saves_iff_inserted:
  assumes "assimilate tm cs = (r, tm')"
  shows "case r of
           Inr added \<Rightarrow>
             (if new_keys tm tm' \<noteq> []
              then trait_file tm' = Some (library tm') \<and> writes tm' = Suc (writes tm)
              else tm' = tm)
         | Inl e \<Rightarrow> trait_file tm' = trait_file tm \<and> writes tm' = writes tm"
proof (cases r)
  case (Inl e)
  from assimilate_loopD[OF assms] Inl have "tm' = tm\<lparr>library := library tm'\<rparr>" by simp
  then have "trait_file tm' = trait_file tm \<and> writes tm' = writes tm"
    by (metis select_convs(2,3) surjective update_convs(1))
  with Inl show ?thesis by simp
next
  case (Inr added)
  from assimilate_loopD[OF assms] Inr
  have tm': "tm' = (if added \<noteq> [] then save (tm\<lparr>library := library tm'\<rparr>)
                    else tm\<lparr>library := library tm'\<rparr>)" by simp
  show ?thesis
  proof (cases "\<exists>t. dict_get (library tm) ''traits'' = Some (JObject t)")
    case True
    then obtain u where u: "dict_get (library tm) ''traits'' = Some (JObject u)" by blast
    from assimilate_object[OF u assms] Inr obtain new where
      new: "traits_dict tm' = u @ new" "set (keys new) \<inter> set (keys u) = {}"
        "library tm' = dict_set (library tm) ''traits'' (JObject (u @ new))"
        "added = keys new" by blast
    from u have "traits_dict tm = u" by (simp add: traits_dict_def traits_of_doc_object)
    from new_keys_object[OF this new(1) new(2)] new(4) have nk: "new_keys tm tm' = added" by simp
    show ?thesis
    proof (cases "added = []")
      case True
      with new(3,4) u have "library tm' = library tm" by (simp add: keys_def dict_set_same)
      with tm' True have "tm' = tm" by simp
      with Inr nk True show ?thesis by simp
    next
      case False
      with tm' have "tm' = save (tm\<lparr>library := library tm'\<rparr>)" by simp
      then have "trait_file tm' = Some (library tm') \<and> writes tm' = Suc (writes tm)"
        by (metis (no_types, lifting) save_def select_convs(1,2,3) surjective update_convs(1,2,3))
      with Inr nk False show ?thesis by simp
    qed
  next
    case False
    then have "\<forall>t. dict_get (library tm) ''traits'' \<noteq> Some (JObject t)" by simp
    from assimilate_not_object[OF this assms] Inr show ?thesis by (simp add: new_keys_same)
  qed
qed

lemma assimilate_saves_iff_inserted_witness:
  "assimilate tm_one cs_sample = (Inr [''hoarding''], tm_two)
   \<and> new_keys tm_one tm_two = [''hoarding'']
   \<and> trait_file tm_two = Some (library tm_two) \<and> writes tm_two = Suc (writes tm_one)"
proof -
  have h1: "assimilate tm_one cs_sample = (Inr [''hoarding''], tm_two)"
    by code_simp
  have h2: "new_keys tm_one tm_two = [''hoarding'']"
    by code_simp
  from assimilate_saves_iff_inserted[OF h1] h2
  have "trait_file tm_two = Some (library tm_two) \<and> writes tm_two = Suc (writes tm_one)"
    by simp
  with h1 h2 show ?thesis by simp
qed

text \<open>
  The list a call returns is the list of the keys the call inserted, and it is a
  subsequence of the candidates' keys.
\<close>

lemma assimilate_returns_new_keys_in_order:
  "(dict_get (library tm) ''traits'' = Some (JObject t) \<and> list_all (is_mapping \<circ> snd) cs
      \<longrightarrow> (\<exists>added tm'. assimilate tm cs = (Inr added, tm')))
   \<and> (\<forall>added tm'. assimilate tm cs = (Inr added, tm')
        \<longrightarrow> added = new_keys tm tm' \<and> subseq added (keys cs))"
proof (intro conjI impI allI)
  assume "dict_get (library tm) ''traits'' = Some (JObject t) \<and> list_all (is_mapping \<circ> snd) cs"
  then show "\<exists>added tm'. assimilate tm cs = (Inr added, tm')"
    using assimilate_returns by blast
next
  fix added tm'
  assume a: "assimilate tm cs = (Inr added, tm')"
  have "added = new_keys tm tm' \<and> subseq added (keys cs)"
  proof (cases "\<exists>t. dict_get (library tm) ''traits'' = Some (JObject t)")
    case True
    then obtain u where u: "dict_get (library tm) ''traits'' = Some (JObject u)" by blast
    from assimilate_object[OF u a] obtain new where
      new: "traits_dict tm' = u @ new" "subseq new cs" "set (keys new) \<inter> set (keys u) = {}"
        "added = keys new" by blast
    from u have "traits_dict tm = u" by (simp add: traits_dict_def traits_of_doc_object)
    from new_keys_object[OF this new(1) new(3)] have "new_keys tm tm' = keys new" .
    moreover from new(2) have "subseq (keys new) (keys cs)"
      unfolding keys_def by (rule subseq_map)
    ultimately show ?thesis using new(4) by simp
  next
    case False
    then have "\<forall>t. dict_get (library tm) ''traits'' \<noteq> Some (JObject t)" by simp
    from assimilate_not_object[OF this a] show ?thesis by (simp add: new_keys_same)
  qed
  then show "added = new_keys tm tm'" and "subseq added (keys cs)" by blast+
qed

lemma assimilate_returns_new_keys_in_order_witness:
  "dict_get (library tm_one) ''traits'' = Some (JObject [(''lust_for_power'', trait_a)])
   \<and> list_all (is_mapping \<circ> snd) cs_sample
   \<and> assimilate tm_one cs_sample = (Inr [''hoarding''], tm_two)
   \<and> [''hoarding''] = new_keys tm_one tm_two
   \<and> subseq [''hoarding''] (keys cs_sample)"
proof -
  have h0: "dict_get (library tm_one) ''traits'' = Some (JObject [(''lust_for_power'', trait_a)])
            \<and> list_all (is_mapping \<circ> snd) cs_sample"
    by code_simp
  have h1: "assimilate tm_one cs_sample = (Inr [''hoarding''], tm_two)"
    by code_simp
  from assimilate_returns_new_keys_in_order[of tm_one "[(''lust_for_power'', trait_a)]" cs_sample] h1
  have "[''hoarding''] = new_keys tm_one tm_two \<and> subseq [''hoarding''] (keys cs_sample)"
    by blast
  with h0 h1 show ?thesis by blast
qed

text \<open>
  On a library with a traits mapping, for candidates with distinct keys and a call
  that returns: under every key of the returned list the library holds the candidate's
  data as it came, and the file holds that library; and every candidate that is a dict
  with the fields \<open>definition\<close> and \<open>sin_weights\<close>, under a key not yet in the library,
  is accepted.
\<close>

lemma assimilate_stores_verbatim:
  assumes "dict_get (library tm) ''traits'' = Some (JObject t)"
      and "distinct (keys cs)"
      and "assimilate tm cs = (Inr added, tm')"
  shows "(\<forall>k \<in> set added. dict_get (traits_dict tm') k = dict_get cs k
                           \<and> trait_file tm' = Some (library tm'))
       \<and> (\<forall>k fs. dict_get cs k = Some (JObject fs)
                \<and> ''definition'' \<in> set (keys fs) \<and> ''sin_weights'' \<in> set (keys fs)
                \<and> k \<notin> set (keys t)
             \<longrightarrow> k \<in> set added)"
proof -
  from assimilate_object[OF assms(1,3)] obtain new where
    new: "traits_dict tm' = t @ new" "subseq new cs" "set (keys new) \<inter> set (keys t) = {}"
      "distinct (keys new)" "added = keys new"
      "\<forall>c \<in> set cs. fst c \<in> set (keys (t @ new)) \<or> valid_structure (snd c) = Inr False"
    by blast
  have stored: "dict_get (traits_dict tm') k = dict_get cs k" if "k \<in> set added" for k
  proof -
    from that new(5) obtain d where d: "(k, d) \<in> set new" by (auto simp: keys_def)
    from map_of_subseq_distinct[OF new(2) _ d] assms(2) have "dict_get cs k = Some d"
      by (simp add: keys_def dict_get_def)
    moreover from d new(4) have "map_of new k = Some d" by (simp add: keys_def)
    moreover from that new(3,5) have "k \<notin> set (keys t)" by auto
    then have "map_of t k = None" by (simp add: keys_def map_of_eq_None_iff)
    ultimately show ?thesis using new(1) by (simp add: dict_get_def map_add_def)
  qed
  have saved: "trait_file tm' = Some (library tm')" if "k \<in> set added" for k
  proof -
    from that have "added \<noteq> []" by auto
    with assimilate_loopD[OF assms(3)] have "tm' = save (tm\<lparr>library := library tm'\<rparr>)" by simp
    then show ?thesis
      by (metis (no_types, lifting) save_def select_convs(1,2) surjective update_convs(1,2,3))
  qed
  have accepted: "k \<in> set added"
    if "dict_get cs k = Some (JObject fs)" "''definition'' \<in> set (keys fs)"
       "''sin_weights'' \<in> set (keys fs)" "k \<notin> set (keys t)" for k fs
  proof -
    from that(1) have "(k, JObject fs) \<in> set cs" by (auto simp: dict_get_def dest: map_of_SomeD)
    with new(6) have "k \<in> set (keys (t @ new)) \<or> valid_structure (JObject fs) = Inr False"
      by fastforce
    with that(2,3) have "k \<in> set (keys (t @ new))" by (simp add: valid_structure_mapping)
    with that(4) new(5) show ?thesis by (auto simp: keys_def)
  qed
  from stored saved accepted show ?thesis by blast
qed

lemma assimilate_stores_verbatim_witness:
  "dict_get (library tm_one) ''traits'' = Some (JObject [(''lust_for_power'', trait_a)])
   \<and> distinct (keys cs_sample)
   \<and> assimilate tm_one cs_sample = (Inr [''hoarding''], tm_two)
   \<and> dict_get cs_sample ''hoarding'' = Some trait_b
   \<and> dict_get (traits_dict tm_two) ''hoarding'' = Some trait_b
   \<and> trait_file tm_two = Some (library tm_two)"
proof -
  have h1: "dict_get (library tm_one) ''traits'' = Some (JObject [(''lust_for_power'', trait_a)])"
    by code_simp
  have h2: "distinct (keys cs_sample)" by code_simp
  have h3: "assimilate tm_one cs_sample = (Inr [''hoarding''], tm_two)" by code_simp
  have h4: "dict_get cs_sample ''hoarding'' = Some trait_b" by code_simp
  from assimilate_stores_verbatim[OF h1 h2 h3] h4
  have "dict_get (traits_dict tm_two) ''hoarding'' = Some trait_b
        \<and> trait_file tm_two = Some (library tm_two)" by simp
  with h1 h2 h3 h4 show ?thesis by simp
qed


section \<open>The claims\<close>

text \<open>
  C1. A key that is in the library's traits mapping before a call of \<open>assimilate\<close>
  keeps its stored data through the call, whatever the candidates are and however the
  call ends (with a list or with an exception), and the returned list does not hold it.
\<close>

theorem assimilate_keeps_existing:
  assumes "dict_get (traits_dict tm) k = Some v"
      and "assimilate tm cs = (r, tm')"
  shows "dict_get (traits_dict tm') k = Some v \<and> (\<forall>added. r = Inr added \<longrightarrow> k \<notin> set added)"
proof -
  let ?t = "traits_dict tm"
  from assms(1) have "?t \<noteq> []" by (auto simp: dict_get_def)
  then have obj: "dict_get (library tm) ''traits'' = Some (JObject ?t)"
    unfolding traits_dict_def by (rule traits_of_doc_nonempty)
  from assms(1) have k: "k \<in> set (keys ?t)"
    by (auto simp: dict_get_def keys_def dest: map_of_SomeD intro: rev_image_eqI)
  from assimilate_object[OF obj assms(2)] obtain new where
    new: "traits_dict tm' = ?t @ new" "set (keys new) \<inter> set (keys ?t) = {}"
      "\<forall>a. r = Inr a \<longrightarrow> a = keys new" by blast
  from new(1) k assms(1) have "dict_get (traits_dict tm') k = Some v"
    by (simp add: dict_get_append_known)
  moreover from new(2,3) k have "\<forall>added. r = Inr added \<longrightarrow> k \<notin> set added" by auto
  ultimately show ?thesis by simp
qed

theorem assimilate_keeps_existing_witness:
  "dict_get (traits_dict tm_one) ''lust_for_power'' = Some trait_a
   \<and> assimilate tm_one [(''lust_for_power'', trait_b)] = (Inr [], tm_one)
   \<and> dict_get (traits_dict (snd (assimilate tm_one [(''lust_for_power'', trait_b)]))) ''lust_for_power''
       = Some trait_a"
proof -
  have h1: "dict_get (traits_dict tm_one) ''lust_for_power'' = Some trait_a"
    by code_simp
  have h2: "assimilate tm_one [(''lust_for_power'', trait_b)] = (Inr [], tm_one)"
    by code_simp
  from assimilate_keeps_existing[OF h1 h2] h1 h2 show ?thesis by simp
qed

text \<open>
  C2. A candidate without the field \<open>definition\<close> or without the field \<open>sin_weights\<close>
  is to be skipped silently: not stored, not returned, no exception. The validation is
  \<open>in\<close> on the candidate as it came, and a candidate that is no dict escapes it:
  \<open>None\<close> makes \<open>in\<close> raise \<open>TypeError\<close>, which ends the call; on a string \<open>in\<close> is
  the substring test, so a string that holds both words is stored as a trait and
  returned, and from then on the summary raises \<open>AttributeError\<close>.
\<close>

theorem assimilate_non_mapping_candidate:
  "assimilate tm_empty [(''x'', JNull)] = (Inl TypeError, tm_empty)
   \<and> fst (assimilate tm_empty [(''x'', JString ''no definition, no sin_weights'')]) = Inr [''x'']
   \<and> dict_get (traits_dict (snd (assimilate tm_empty
         [(''x'', JString ''no definition, no sin_weights'')]))) ''x''
       = Some (JString ''no definition, no sin_weights'')
   \<and> get_knowledge_base_string repr_sample
         (snd (assimilate tm_empty [(''x'', JString ''no definition, no sin_weights'')]))
       = Inl AttributeError"
  by code_simp

text \<open>
  C3. Calling \<open>assimilate\<close> twice with the same candidates is to return the empty list
  the second time. With a candidate that is \<open>None\<close> after a complete one, the first
  call stores the complete one and ends with \<open>TypeError\<close>, and the second call ends
  with \<open>TypeError\<close> again: it returns no list.
\<close>

theorem assimilate_twice_raises:
  "assimilate tm_empty cs_raise = (Inl TypeError, tm_hoarding_unsaved)
   \<and> assimilate tm_hoarding_unsaved cs_raise = (Inl TypeError, tm_hoarding_unsaved)"
  by code_simp

text \<open>
  C4, as amended. When \<open>json.loads\<close> raises on the text left after the fences are
  stripped, \<open>analyze\<close> ends with that very exception (\<open>JSONDecodeError\<close> on a text
  that is no JSON, \<open>ValueError\<close> or \<open>RecursionError\<close> on some others) and the Trait
  Store is untouched; the route turns it, as it turns every exception of \<open>analyze\<close>,
  into the HTTP error 500 whose detail is the exception's text behind
  \<open>Analysis failed: \<close>.
\<close>

theorem analyze_parse_failure:
  assumes "get_knowledge_base_string repr tm = Inr kb"
      and "json_loads (normalize text) = Inl e"
  shows "analyze repr json_loads tm text = (Inl e, tm)
       \<and> api_analyze exn_str repr json_loads tm text
           = (Inl (HTTPException 500 (''Analysis failed: '' @ exn_str e)), tm)
       \<and> (\<forall>e2 tm2 text2 tm2'. analyze repr json_loads tm2 text2 = (Inl e2, tm2')
             \<longrightarrow> api_analyze exn_str repr json_loads tm2 text2
                   = (Inl (HTTPException 500 (''Analysis failed: '' @ exn_str e2)), tm2'))"
  using assms by (simp add: analyze_def analyze_response_def api_analyze_def)

theorem analyze_parse_failure_witness:
  "get_knowledge_base_string repr_sample tm_one
     = Inr ''- lust_for_power: craves control [Weights: wrath: 0.6] (complexity: 1)''
   \<and> json_loads_sample (normalize ''not json'') = Inl JSONDecodeError
   \<and> analyze repr_sample json_loads_sample tm_one ''not json'' = (Inl JSONDecodeError, tm_one)
   \<and> api_analyze exn_str_sample repr_sample json_loads_sample tm_one ''not json''
       = (Inl (HTTPException 500 ''Analysis failed: Expecting value: line 1 column 1 (char 0)''), tm_one)"
proof -
  have h1: "get_knowledge_base_string repr_sample tm_one
     = Inr ''- lust_for_power: craves control [Weights: wrath: 0.6] (complexity: 1)''"
    by code_simp
  have h2: "json_loads_sample (normalize ''not json'') = Inl JSONDecodeError" by code_simp
  have h3: "exn_str_sample JSONDecodeError = ''Expecting value: line 1 column 1 (char 0)''"
    by code_simp
  from analyze_parse_failure[of repr_sample tm_one _ json_loads_sample "''not json''"
      JSONDecodeError exn_str_sample, OF h1 h2] h1 h2 h3
  show ?thesis by simp
qed

text \<open>
  C4 as stated fails: on a text that is no JSON the exception is the built-in one of
  the parser, not a \<open>MalformedResponseError\<close>.
\<close>

theorem analyze_raises_builtin_error:
  "fst (analyze repr_sample json_loads_sample tm_one ''not json'') = Inl JSONDecodeError
   \<and> fst (analyze repr_sample json_loads_sample tm_one ''not json'') \<noteq> Inl MalformedResponseError"
  by code_simp

text \<open>
  C5. A call of \<open>assimilate\<close> is to write the library to the file exactly when it has
  newly inserted a key. With a candidate that is \<open>None\<close> after a complete one, the
  call inserts the complete one and ends with \<open>TypeError\<close> before the save, which
  stands after the loop: a key is newly in the library and the file has not been
  written.
\<close>

theorem assimilate_raises_after_insert:
  "fst (assimilate tm_one [(''hoarding'', trait_b), (''x'', JNull)]) = Inl TypeError
   \<and> new_keys tm_one (snd (assimilate tm_one [(''hoarding'', trait_b), (''x'', JNull)]))
       = [''hoarding'']
   \<and> trait_file (snd (assimilate tm_one [(''hoarding'', trait_b), (''x'', JNull)]))
       = trait_file tm_one
   \<and> writes (snd (assimilate tm_one [(''hoarding'', trait_b), (''x'', JNull)])) = writes tm_one"
  by code_simp

text \<open>
  C6. \<open>assimilate\<close> is to return the list of the keys it newly inserted. With a
  candidate that is \<open>None\<close> after two complete ones, the call inserts both and ends
  with \<open>TypeError\<close>: the keys are in the library and no list is returned.
\<close>

theorem assimilate_inserts_without_returning:
  "fst (assimilate tm_one
          [(''hoarding'', trait_b), (''envy_of_recognition'', trait_a), (''x'', JNull)])
     = Inl TypeError
   \<and> keys (traits_dict tm_one) = [''lust_for_power'']
   \<and> keys (traits_dict (snd (assimilate tm_one
        [(''hoarding'', trait_b), (''envy_of_recognition'', trait_a), (''x'', JNull)])))
       = [''lust_for_power'', ''hoarding'', ''envy_of_recognition'']"
  by code_simp

text \<open>
  C7, as amended. For a library whose traits mapping is not empty and holds traits as
  the data model has them, the summary is the entries of the traits, in library order,
  joined by newlines; an entry is \<open>- key: definition [Weights: pairs] (complexity:
  score)\<close>, where \<open>pairs\<close> are the \<open>sin: weight\<close> of the weights greater than zero,
  joined by commas. For a trait with the weights \<open>pride\<close> 0.0 and \<open>wrath\<close> 0.6 (0.6
  printed as Python prints it) the pairs are \<open>wrath: 0.6\<close> alone: the entry contains
  \<open>wrath: 0.6\<close>, and it contains \<open>pride\<close> only if the key, the definition or the
  score's text does.
\<close>

theorem knowledge_base_summary:
  assumes "get_traits tm = JObject t" and "t \<noteq> []" and "list_all (wf_trait \<circ> snd) t"
  shows "get_knowledge_base_string repr tm = Inr (join [newline] (map (spec_entry repr) t))
       \<and> (\<forall>key data.
            (key, data) \<in> set t
            \<and> trait_weights data = [(''pride'', JFloat float_0_0), (''wrath'', JFloat float_0_6)]
            \<and> repr (JFloat float_0_6) = ''0.6''
            \<longrightarrow> spec_entry repr (key, data)
                  = ''- '' @ key @ '': '' @ definition_text repr data
                    @ '' [Weights: wrath: 0.6] (complexity: '' @ complexity_text repr data @ '')''
                \<and> sublist ''wrath: 0.6'' (spec_entry repr (key, data))
                \<and> (\<not> sublist ''pride'' key \<and> \<not> sublist ''pride'' (definition_text repr data)
                     \<and> \<not> sublist ''pride'' (complexity_text repr data)
                    \<longrightarrow> \<not> sublist ''pride'' (spec_entry repr (key, data))))"
proof (intro conjI allI impI)
  from assms show "get_knowledge_base_string repr tm = Inr (join [newline] (map (spec_entry repr) t))"
    by (simp add: get_knowledge_base_string_def summary_lines_wf)
next
  fix key data
  assume a: "(key, data) \<in> set t
            \<and> trait_weights data = [(''pride'', JFloat float_0_0), (''wrath'', JFloat float_0_6)]
            \<and> repr (JFloat float_0_6) = ''0.6''"
  then have w: "spec_weights repr (trait_weights data) = ''wrath: 0.6''"
    by (simp add: spec_weights_example)
  show e: "spec_entry repr (key, data)
                  = ''- '' @ key @ '': '' @ definition_text repr data
                    @ '' [Weights: wrath: 0.6] (complexity: '' @ complexity_text repr data @ '')''"
    by (simp add: spec_entry_def w)
  have "spec_entry repr (key, data)
          = (''- '' @ key @ '': '' @ definition_text repr data @ '' [Weights: '') @ ''wrath: 0.6''
            @ (''] (complexity: '' @ complexity_text repr data @ '')'')"
    by (simp add: e)
  then show "sublist ''wrath: 0.6'' (spec_entry repr (key, data))"
    by (metis sublist_appendI)
  assume "\<not> sublist ''pride'' key \<and> \<not> sublist ''pride'' (definition_text repr data)
                     \<and> \<not> sublist ''pride'' (complexity_text repr data)"
  then show "\<not> sublist ''pride'' (spec_entry repr (key, data))"
    unfolding e by (intro pride_not_in_entry) simp_all
qed

theorem knowledge_base_summary_witness:
  "get_traits tm_one = JObject [(''lust_for_power'', trait_a)]
   \<and> list_all (wf_trait \<circ> snd) [(''lust_for_power'', trait_a)]
   \<and> get_knowledge_base_string repr_sample tm_one
       = Inr ''- lust_for_power: craves control [Weights: wrath: 0.6] (complexity: 1)''
   \<and> trait_weights trait_a = [(''pride'', JFloat float_0_0), (''wrath'', JFloat float_0_6)]
   \<and> repr_sample (JFloat float_0_6) = ''0.6''
   \<and> sublist ''wrath: 0.6'' (spec_entry repr_sample (''lust_for_power'', trait_a))
   \<and> \<not> sublist ''pride'' (spec_entry repr_sample (''lust_for_power'', trait_a))"
proof -
  have h1: "get_traits tm_one = JObject [(''lust_for_power'', trait_a)]" by code_simp
  have h2: "[(''lust_for_power'', trait_a)] \<noteq> []" by simp
  have h3: "list_all (wf_trait \<circ> snd) [(''lust_for_power'', trait_a)]" by code_simp
  have h4: "trait_weights trait_a = [(''pride'', JFloat float_0_0), (''wrath'', JFloat float_0_6)]"
    by code_simp
  have h5: "repr_sample (JFloat float_0_6) = ''0.6''" by code_simp
  have h6: "\<not> sublist ''pride'' ''lust_for_power''
            \<and> \<not> sublist ''pride'' (definition_text repr_sample trait_a)
            \<and> \<not> sublist ''pride'' (complexity_text repr_sample trait_a)" by code_simp
  have h7: "join [newline] (map (spec_entry repr_sample) [(''lust_for_power'', trait_a)])
            = ''- lust_for_power: craves control [Weights: wrath: 0.6] (complexity: 1)''"
    by code_simp
  from knowledge_base_summary[OF h1 h2 h3, of repr_sample] h1 h3 h4 h5 h6 h7
  show ?thesis by auto
qed

text \<open>
  C7 as stated fails for a trait whose key (or definition) holds the word: the line of
  \<open>wounded_pride\<close> contains \<open>pride\<close> although the weight of \<open>pride\<close> is zero.
\<close>

theorem summary_line_with_pride_in_key:
  "get_knowledge_base_string repr_sample tm_pride
     = Inr ''- wounded_pride: craves control [Weights: wrath: 0.6] (complexity: 1)''
   \<and> sublist ''pride'' ''- wounded_pride: craves control [Weights: wrath: 0.6] (complexity: 1)''"
  by code_simp

text \<open>
  C8, as amended. A text that begins as JSON does, wrapped in a fenced block whose
  opening fence carries no tag or the tag \<open>json\<close> (with any whitespace after the
  opening fence, before the closing fence and around the block), is normalised to the
  same text as the unwrapped one, namely the stripped text; so \<open>analyze\<close> goes on
  identically from both, whatever \<open>json.loads\<close> makes of that text.
\<close>

theorem fence_stripping_round_trip:
  assumes "begins_json d" and "tag = [] \<or> tag = ''json''"
      and "whitespace w1" and "whitespace w2" and "whitespace o1" and "whitespace o2"
  shows "normalize (o1 @ fence @ tag @ w1 @ d @ w2 @ fence @ o2) = strip d
       \<and> normalize d = strip d
       \<and> analyze_response json_loads tm (o1 @ fence @ tag @ w1 @ d @ w2 @ fence @ o2)
           = analyze_response json_loads tm d"
proof -
  from begins_jsonD[OF assms(1)] obtain c rest where
    d: "dropWhile py_isspace d = c # rest" and c: "c \<in> set json_first_chars" by blast
  note n = normalize_fenced[OF assms]
  from strip_begins(2)[OF d c] n show ?thesis by (simp add: analyze_response_def)
qed

theorem fence_stripping_round_trip_witness:
  "begins_json ''{}'' \<and> whitespace [newline] \<and> whitespace []
   \<and> normalize (fence @ ''json'' @ [newline] @ ''{}'' @ [newline] @ fence) = ''{}''
   \<and> analyze_response json_loads_sample tm_empty (fence @ ''json'' @ [newline] @ ''{}'' @ [newline] @ fence)
       = analyze_response json_loads_sample tm_empty ''{}''"
proof -
  have h1: "begins_json ''{}''" by code_simp
  have h2: "''json'' = [] \<or> ''json'' = ''json''" by simp
  have h3: "whitespace [newline]" by code_simp
  have h4: "whitespace []" by code_simp
  have h5: "strip ''{}'' = ''{}''" by code_simp
  from fence_stripping_round_trip[OF h1 h2 h3 h3 h4 h4, of json_loads_sample tm_empty] h1 h3 h4 h5
  show ?thesis by simp
qed

text \<open>
  C8 as stated fails for any other language tag: the pattern knows the letters
  \<open>json\<close> only, the tag \<open>js\<close> stays in front of the document and the text is no
  JSON any more, while the unwrapped document parses.
\<close>

theorem fence_with_other_tag:
  "analyze_response json_loads_sample tm_empty (fence @ ''js'' @ [newline] @ ''{}'' @ [newline] @ fence)
     = (Inl JSONDecodeError, tm_empty)
   \<and> analyze_response json_loads_sample tm_empty ''{}''
     = (Inr (JObject [(''_newly_added_traits'', JArray [])]), tm_empty)"
  by code_simp

text \<open>
  C9. The data of an accepted candidate is to be stored as it came and then persisted.
  With a candidate that is \<open>None\<close> after a complete one, the complete one is
  accepted and stored in the library as it came, with the field the data model does
  not know; the call then ends with \<open>TypeError\<close> and the file still holds the
  library as it was, without the trait.
\<close>

theorem assimilate_accepts_without_persisting:
  "fst (assimilate tm_empty cs_raise) = Inl TypeError
   \<and> dict_get (traits_dict (snd (assimilate tm_empty cs_raise))) ''hoarding'' = Some trait_b
   \<and> trait_file (snd (assimilate tm_empty cs_raise)) = Some skeleton
   \<and> dict_get (traits_of_doc skeleton) ''hoarding'' = None"
  by code_simp

text \<open>
  C10. When the document the library was loaded from has no \<open>traits\<close> field,
  \<open>get_traits\<close> answers the empty dict, but \<open>assimilate\<close> with at least one candidate
  raises \<open>KeyError\<close> in its first round and leaves the manager as loaded.
\<close>

theorem missing_traits_field:
  assumes "trait_file tm = Some doc" and "dict_get doc ''traits'' = None" and "cs \<noteq> []"
  shows "get_traits (load tm) = JObject [] \<and> assimilate (load tm) cs = (Inl KeyError, load tm)"
proof -
  from assms(1) have l: "load tm = tm\<lparr>library := doc\<rparr>" by (simp add: load_def)
  from assms(3) obtain c rest where cs: "cs = c # rest" by (cases cs) auto
  obtain k d where c: "c = (k, d)" by (cases c)
  from assms(2) have "assimilate_body c (doc, []) = Inl KeyError"
    by (simp add: assimilate_body_def c)
  then have "assimilate_loop cs doc [] = (Inl KeyError, doc)" by (simp add: cs)
  then have "assimilate (load tm) cs = (Inl KeyError, load tm)"
    by (simp add: assimilate_def l)
  moreover from assms(2) have "get_traits (load tm) = JObject []"
    by (simp add: get_traits_def l)
  ultimately show ?thesis by simp
qed

theorem missing_traits_field_witness:
  "trait_file tm_no_traits = Some [(''meta'', JObject [])]
   \<and> dict_get [(''meta'', JObject [])] ''traits'' = None
   \<and> get_traits (load tm_no_traits) = JObject []
   \<and> assimilate (load tm_no_traits) [(''hoarding'', trait_b)] = (Inl KeyError, load tm_no_traits)"
proof -
  have h1: "trait_file tm_no_traits = Some [(''meta'', JObject [])]" by code_simp
  have h2: "dict_get [(''meta'', JObject [])] ''traits'' = None" by code_simp
  have h3: "[(''hoarding'', trait_b)] \<noteq> []" by simp
  from missing_traits_field[OF h1 h2 h3] h1 h2 show ?thesis by simp
qed

end
